theory Spec2Isabelle
  imports Complex_Main "HOL-Library.Sublist"
begin

section \<open>JavaScript strings and values\<close>

text \<open>
  Strings are lists of code units below 256 (\<^typ>\<open>string\<close>).  The string builtins the
  sources call are written out: \<open>includes\<close> is \<^const>\<open>sublist\<close>, \<open>startsWith\<close> is
  \<^const>\<open>prefix\<close>, \<open>endsWith\<close> is \<^const>\<open>suffix\<close>.
\<close>

text \<open>\<open>str.replace(needle, '')\<close> with a string needle: the first occurrence is removed.\<close>

fun replaceFirst :: "string \<Rightarrow> string \<Rightarrow> string" where
  "replaceFirst needle [] = []"
| "replaceFirst needle (c # cs) =
     (if prefix needle (c # cs) then drop (length needle) (c # cs)
      else c # replaceFirst needle cs)"

text \<open>The character classes \<open>\s\<close> and \<open>\w\<close> of a regular expression, below code unit 256.\<close>

definition isSpace :: "char \<Rightarrow> bool" where
  "isSpace c \<longleftrightarrow>
     c \<in> {CHR 0x09, CHR 0x0A, CHR 0x0B, CHR 0x0C, CHR 0x0D, CHR 0x20, CHR 0xA0}"

definition isWord :: "char \<Rightarrow> bool" where
  "isWord c \<longleftrightarrow>
     c \<in> set ''abcdefghijklmnopqrstuvwxyzABCDEFGHIJKLMNOPQRSTUVWXYZ0123456789_''"

definition isWordOrDash :: "char \<Rightarrow> bool" where
  "isWordOrDash c \<longleftrightarrow> isWord c \<or> c = CHR ''-''"

text \<open>An exception thrown by the code.\<close>

datatype error = TypeError | IOError | ConvertError

section \<open>Coverage data\<close>

text \<open>
  A source range, and the three families of a file's coverage: every statement, function
  and branch id carries its structural entry (where it is in the source) and its counter.
\<close>

record loc =
  start_line :: nat
  start_col :: nat
  end_line :: nat
  end_col :: nat

record fileCoverage =
  path :: string
  statements :: "nat \<rightharpoonup> (loc \<times> nat)"
  fnEntries :: "nat \<rightharpoonup> ((string \<times> loc) \<times> nat)"
  branchEntries :: "nat \<rightharpoonup> ((string \<times> loc list) \<times> nat list)"

text \<open>
  \<open>ClientCoverageResult\<close>: a plain object keyed by file path, here its entries in key
  order.
\<close>

type_synonym clientCoverage = "(string \<times> fileCoverage) list"

section \<open>support-utils.js: the coverage filter\<close>

text \<open>
  \<open>Cypress._.omitBy(object, predicate)\<close>: the entries for which the predicate is not
  truthy, in order; an exception of the predicate ends the call.
\<close>

fun omitBy :: "('v \<Rightarrow> string \<Rightarrow> error + bool) \<Rightarrow> (string \<times> 'v) list \<Rightarrow> error + (string \<times> 'v) list" where
  "omitBy p [] = Inr []"
| "omitBy p ((k, v) # kvs) =
     (case p v k of
        Inl e \<Rightarrow> Inl e
      | Inr b \<Rightarrow>
          (case omitBy p kvs of
             Inl e \<Rightarrow> Inl e
           | Inr r \<Rightarrow> Inr (if b then r else (k, v) # r)))"

text \<open>
  \<open>/([^\/\\]+)$/.exec(filePath)?.[1]\<close>: the longest run of characters other than
  \<open>/\<close> and \<open>\\<close> that ends the string, undefined when that run is empty.
\<close>

definition isSep :: "char \<Rightarrow> bool" where
  "isSep c \<longleftrightarrow> c = CHR ''/'' \<or> c = CHR 0x5C"

definition fileNameOf :: "string \<Rightarrow> string option" where
  "fileNameOf filePath =
     (let run = rev (takeWhile (\<lambda>c. \<not> isSep c) (rev filePath))
      in if run = [] then None else Some run)"

text \<open>
  \<open>/\/external\s(\w|-)+\s"/\<close> tried at the start of a string, and
  \<open>str.match(...)\<close>, which tries it at every position.
\<close>

definition externalAt :: "string \<Rightarrow> bool" where
  "externalAt s \<longleftrightarrow>
     prefix ''/external'' s \<and>
     (case drop 9 s of
        [] \<Rightarrow> False
      | c # r \<Rightarrow>
          isSpace c \<and> takeWhile isWordOrDash r \<noteq> [] \<and>
          (case dropWhile isWordOrDash r of
             c2 # c3 # _ \<Rightarrow> isSpace c2 \<and> c3 = CHR 0x22
           | _ \<Rightarrow> False))"

fun matchExternal :: "string \<Rightarrow> bool" where
  "matchExternal [] = externalAt []"
| "matchExternal (c # cs) = (externalAt (c # cs) \<or> matchExternal cs)"

text \<open>The predicate both copies of \<open>filterExternalFromCoverage\<close> apply to a path.\<close>

definition isExternal :: "string \<Rightarrow> bool" where
  "isExternal p \<longleftrightarrow>
     (case fileNameOf p of None \<Rightarrow> False | Some fileName \<Rightarrow> prefix ''webpack '' fileName) \<or>
     sublist ''/webpack/'' p \<or>
     matchExternal p"

text \<open>
  \<open>filterExternalFromCoverage\<close> of lib/support/support-utils.js (lines 35-48) tests the
  key of each entry.
\<close>

definition filterExternalFromCoverage :: "clientCoverage \<Rightarrow> error + clientCoverage" where
  "filterExternalFromCoverage totalCoverage =
     omitBy (\<lambda>_ filePath. Inr (isExternal filePath)) totalCoverage"

text \<open>
  The second copy of \<open>filterExternalFromCoverage\<close> (lines 122-143) tests the \<open>path\<close>
  property of each entry's value.
\<close>

definition filterExternalFromCoverage_path :: "clientCoverage \<Rightarrow> error + clientCoverage" where
  "filterExternalFromCoverage_path totalCoverage =
     omitBy (\<lambda>fc _. Inr (isExternal (path fc))) totalCoverage"

subsection \<open>The configuration read by the filter\<close>

text \<open>
  What \<open>config('specPattern')\<close>, \<open>config('testFiles')\<close> and \<open>codeCoverage.exclude\<close> hold:
  nothing, one pattern, or an array of patterns.
\<close>

datatype stringSetting = Unset | One string | Many "string list"

text \<open>An element of the array \<open>getCypressExcludePatterns\<close> returns.\<close>

datatype jsPattern = Undefined | Str string

datatype configKey = SpecPattern | TestFiles

text \<open>The \<open>codeCoverage\<close> object of the environment (support.js, \<open>CodeCoverageConfig\<close>).\<close>

record codeCoverageConfig =
  client :: "bool option"
  clientRoots :: "(string \<times> string) list"
  ssr :: "string option"
  api :: stringSetting
  expectBackendCoverageOnly :: "bool option"
  exclude :: stringSetting

text \<open>\<open>Cypress.env()\<close>: the environment, with or without a \<open>codeCoverage\<close> object.\<close>

record cypressEnv =
  codeCoverage :: "codeCoverageConfig option"

record cypressSpec =
  absolute :: string
  relative :: string

text \<open>Truthiness of a setting: undefined and the empty string are falsy, an array is truthy.\<close>

fun truthySetting :: "stringSetting \<Rightarrow> bool" where
  "truthySetting Unset = False"
| "truthySetting (One p) = (p \<noteq> [])"
| "truthySetting (Many ps) = True"

definition getCypressExcludePatterns ::
  "(configKey \<Rightarrow> stringSetting) \<Rightarrow> cypressEnv \<Rightarrow> jsPattern list" where
  "getCypressExcludePatterns config env =
     (let testFilePattern =
            (if truthySetting (config SpecPattern) then config SpecPattern else config TestFiles);
          excludePattern =
            (case codeCoverage env of None \<Rightarrow> Unset | Some cc \<Rightarrow> exclude cc);
          testFilePatterns =
            (case testFilePattern of
               Many ps \<Rightarrow> map Str ps
             | One p \<Rightarrow> [Str p]
             | Unset \<Rightarrow> [Undefined])
      in case excludePattern of
           Many es \<Rightarrow> testFilePatterns @ map Str es
         | One e \<Rightarrow> (if e \<noteq> [] then testFilePatterns @ [Str e] else testFilePatterns)
         | Unset \<Rightarrow> testFilePatterns)"

text \<open>
  \<open>Cypress.minimatch(filename, specPattern, {debug: false})\<close>.  The glob matcher is a
  library: its verdict on a string pattern is the parameter \<open>mm\<close>; a pattern that is not a
  string fails its argument check, which throws a TypeError.
\<close>

fun minimatch :: "(string \<Rightarrow> string \<Rightarrow> bool) \<Rightarrow> string \<Rightarrow> jsPattern \<Rightarrow> error + bool" where
  "minimatch mm filename Undefined = Inl TypeError"
| "minimatch mm filename (Str pattern) = Inr (mm filename pattern)"

text \<open>\<open>filename.endsWith(specPattern)\<close>; an undefined argument is read as \<open>"undefined"\<close>.\<close>

fun endsWith :: "string \<Rightarrow> jsPattern \<Rightarrow> bool" where
  "endsWith filename Undefined = suffix ''undefined'' filename"
| "endsWith filename (Str pattern) = suffix pattern filename"

text \<open>\<open>array.some(callback)\<close>: stops at the first truthy verdict, or at an exception.\<close>

fun some :: "('a \<Rightarrow> error + bool) \<Rightarrow> 'a list \<Rightarrow> error + bool" where
  "some p [] = Inr False"
| "some p (x # xs) =
     (case p x of
        Inl e \<Rightarrow> Inl e
      | Inr b \<Rightarrow> (if b then Inr True else some p xs))"

definition isTestFile ::
  "(string \<Rightarrow> string \<Rightarrow> bool) \<Rightarrow> jsPattern list \<Rightarrow> cypressSpec \<Rightarrow> string \<Rightarrow> error + bool" where
  "isTestFile mm testFilePatterns spec filePath =
     (let workingDir = replaceFirst (relative spec) (absolute spec);
          filename = replaceFirst workingDir filePath
      in case some (minimatch mm filename) testFilePatterns of
           Inl e \<Rightarrow> Inl e
         | Inr matchedPattern \<Rightarrow>
             (let matchedEndOfPath = list_ex (endsWith filename) testFilePatterns
              in Inr (matchedPattern \<or> matchedEndOfPath)))"

definition filterSpecsFromCoverage ::
  "(string \<Rightarrow> string \<Rightarrow> bool) \<Rightarrow> (configKey \<Rightarrow> stringSetting) \<Rightarrow> cypressEnv \<Rightarrow> cypressSpec
     \<Rightarrow> clientCoverage \<Rightarrow> error + clientCoverage" where
  "filterSpecsFromCoverage mm config env spec totalCoverage =
     (let testFilePatterns = getCypressExcludePatterns config env
      in omitBy (\<lambda>_ filePath. isTestFile mm testFilePatterns spec filePath) totalCoverage)"

text \<open>\<open>filterFilesFromCoverage\<close> of lib/support/support-utils.js (lines 21-30).\<close>

definition filterFilesFromCoverage ::
  "(string \<Rightarrow> string \<Rightarrow> bool) \<Rightarrow> (configKey \<Rightarrow> stringSetting) \<Rightarrow> cypressEnv \<Rightarrow> cypressSpec
     \<Rightarrow> clientCoverage \<Rightarrow> error + clientCoverage" where
  "filterFilesFromCoverage mm config env spec totalCoverage =
     (case filterSpecsFromCoverage mm config env spec totalCoverage of
        Inl e \<Rightarrow> Inl e
      | Inr specsRemoved \<Rightarrow> filterExternalFromCoverage specsRemoved)"

text \<open>The two passes in the other order.\<close>

definition filterFilesFromCoverage_reversed ::
  "(string \<Rightarrow> string \<Rightarrow> bool) \<Rightarrow> (configKey \<Rightarrow> stringSetting) \<Rightarrow> cypressEnv \<Rightarrow> cypressSpec
     \<Rightarrow> clientCoverage \<Rightarrow> error + clientCoverage" where
  "filterFilesFromCoverage_reversed mm config env spec totalCoverage =
     (case filterExternalFromCoverage totalCoverage of
        Inl e \<Rightarrow> Inl e
      | Inr externalRemoved \<Rightarrow> filterSpecsFromCoverage mm config env spec externalRemoved)"

text \<open>
  Infrastructure exclusion as the specification words it: the basename starts with the
  marker \<open>webpack \<close>, or the path contains the segment \<open>/webpack/\<close>, or the path contains
  \<open>/external\<close>, a white-space character, one or more word characters or dashes, a
  white-space character and a double quote.
\<close>

definition spec_infrastructure :: "string \<Rightarrow> bool" where
  "spec_infrastructure p \<longleftrightarrow>
     (\<exists>dir base. p = dir @ base \<and> (dir = [] \<or> isSep (last dir)) \<and>
        list_all (\<lambda>c. \<not> isSep c) base \<and> prefix ''webpack '' base) \<or>
     (\<exists>before after. p = before @ ''/webpack/'' @ after) \<or>
     (\<exists>before c1 w c2 after.
        p = before @ ''/external'' @ [c1] @ w @ [c2, CHR 0x22] @ after \<and>
        isSpace c1 \<and> w \<noteq> [] \<and> list_all isWordOrDash w \<and> isSpace c2)"

text \<open>Example data: the coverage of a file with no statement, function or branch.\<close>

definition emptyFile :: "string \<Rightarrow> fileCoverage" where
  "emptyFile p =
     \<lparr>path = p, statements = Map.empty, fnEntries = Map.empty, branchEntries = Map.empty\<rparr>"

text \<open>
  Example data: a run whose working directory is \<open>/app/\<close>, with one spec pattern and the
  exclude pattern \<open>**/*.spec.js\<close>, and the verdicts of the glob matcher on these two
  patterns.
\<close>

definition exampleConfig :: "configKey \<Rightarrow> stringSetting" where
  "exampleConfig key = (case key of SpecPattern \<Rightarrow> One ''cypress/e2e/**/*.cy.js'' | TestFiles \<Rightarrow> Unset)"

definition exampleEnv :: cypressEnv where
  "exampleEnv =
     \<lparr>codeCoverage = Some \<lparr>client = None, clientRoots = [], ssr = None, api = Unset,
        expectBackendCoverageOnly = None, exclude = Many [''**/*.spec.js'']\<rparr>\<rparr>"

definition exampleSpec :: cypressSpec where
  "exampleSpec = \<lparr>absolute = ''/app/cypress/e2e/a.cy.js'', relative = ''cypress/e2e/a.cy.js''\<rparr>"

definition exampleMatch :: "string \<Rightarrow> string \<Rightarrow> bool" where
  "exampleMatch filename pattern \<longleftrightarrow>
     pattern = ''**/*.spec.js'' \<and> suffix ''.spec.js'' filename \<or>
     pattern = ''cypress/e2e/**/*.cy.js'' \<and> prefix ''cypress/e2e/'' filename \<and>
       suffix ''.cy.js'' filename"

text \<open>A configuration with no spec pattern and an environment with no exclude list.\<close>

definition noPatterns :: "configKey \<Rightarrow> stringSetting" where
  "noPatterns key = Unset"

definition noCodeCoverage :: cypressEnv where
  "noCodeCoverage = \<lparr>codeCoverage = None\<rparr>"

section \<open>The coverage map and its merge\<close>

text \<open>
  The coverage map of the merger: file path to file coverage, keys unique, insertion order
  irrelevant.
\<close>

type_synonym coverageMap = "string \<rightharpoonup> fileCoverage"

text \<open>Branch counters are summed element by element; no hit of either side is lost.\<close>

fun addCounts :: "nat list \<Rightarrow> nat list \<Rightarrow> nat list" where
  "addCounts [] ys = ys"
| "addCounts xs [] = xs"
| "addCounts (x # xs) (y # ys) = (x + y) # addCounts xs ys"

text \<open>
  Modelled from the spec: \<open>CoverageMap.merge\<close> and \<open>FileCoverage.merge\<close> of
  istanbul-lib-coverage, which \<open>convertProfileCoverageToIstanbul\<close> calls at line 103, are
  not among the sources.  Section 4.4 of the specification: a file absent from the
  accumulator is inserted verbatim; for a file present on both sides the counters are summed
  per statement, function and branch id; the incoming structural entry is authoritative
  for an id the accumulator has not seen; an id whose structural entries differ between the
  two sides is a structural-skew fault: the incoming id is dropped and the accumulated
  count is kept as it is.
\<close>

definition mergeEntries ::
  "('c \<Rightarrow> 'c \<Rightarrow> 'c) \<Rightarrow> (nat \<rightharpoonup> ('m \<times> 'c)) \<Rightarrow> (nat \<rightharpoonup> ('m \<times> 'c)) \<Rightarrow> (nat \<rightharpoonup> ('m \<times> 'c))" where
  "mergeEntries add acc incoming =
     (\<lambda>i. case incoming i of
            None \<Rightarrow> acc i
          | Some (mi, ci) \<Rightarrow>
              (case acc i of
                 None \<Rightarrow> Some (mi, ci)
               | Some (ma, ca) \<Rightarrow> if ma = mi then Some (ma, add ca ci) else Some (ma, ca)))"

definition mergeFile :: "fileCoverage \<Rightarrow> fileCoverage \<Rightarrow> fileCoverage" where
  "mergeFile acc incoming =
     acc\<lparr>statements := mergeEntries (+) (statements acc) (statements incoming),
         fnEntries := mergeEntries (+) (fnEntries acc) (fnEntries incoming),
         branchEntries := mergeEntries addCounts (branchEntries acc) (branchEntries incoming)\<rparr>"

definition merge :: "coverageMap \<Rightarrow> coverageMap \<Rightarrow> coverageMap" where
  "merge accumulated incoming =
     (\<lambda>file. case incoming file of
               None \<Rightarrow> accumulated file
             | Some fi \<Rightarrow>
                 (case accumulated file of
                    None \<Rightarrow> Some fi
                  | Some fa \<Rightarrow> Some (mergeFile fa fi)))"

text \<open>\<open>libCoverage.createCoverageMap()\<close>: the map with no file.\<close>

definition createCoverageMap :: coverageMap where
  "createCoverageMap = Map.empty"

section \<open>v8ToIstanbul.js: conversion of a raw coverage snapshot\<close>

record coverageRange =
  startOffset :: nat
  endOffset :: nat
  count :: nat

record functionCoverage =
  functionName :: string
  ranges :: "coverageRange list"
  isBlockCoverage :: bool

record scriptCoverage =
  url :: string
  fns :: "functionCoverage list"

text \<open>
  What the conversion calls outside the sources, as parameters: \<open>getSources\<close> of
  ./sourceMap (an exception, \<open>null\<close>, or the file path and its sources; the source-map
  cache it is handed is its own business), the \<open>v8-to-istanbul\<close> converter (constructed
  with the file path, the sources and the exclusion callback, loaded, applied to the
  functions, read with \<open>toIstanbul\<close>), the creation of the cache directory, and the write
  of the debug file.
\<close>

record 'src collaborators =
  getSources :: "string \<Rightarrow> (string \<times> string) list \<Rightarrow> error + (string \<times> 'src) option"
  v8toIstanbul ::
    "string \<Rightarrow> 'src \<Rightarrow> (string \<Rightarrow> bool) \<Rightarrow> functionCoverage list \<Rightarrow> error + coverageMap"
  ensureCacheDir :: "error option"
  saveDebugFile :: "scriptCoverage list \<times> coverageMap \<Rightarrow> string \<Rightarrow> error option"

text \<open>The exclusion callback handed to the converter (lines 37-46).\<close>

definition excludePath :: "string \<Rightarrow> bool" where
  "excludePath p \<longleftrightarrow>
     sublist ''/node_modules/'' p \<or> sublist ''/__cypress/'' p \<or> sublist ''/__/assets/'' p"

definition convertToIstanbul ::
  "'src collaborators \<Rightarrow> scriptCoverage \<Rightarrow> (string \<times> string) list \<Rightarrow> error + coverageMap option" where
  "convertToIstanbul ext obj roots =
     (case getSources ext (url obj) roots of
        Inl e \<Rightarrow> Inl e
      | Inr None \<Rightarrow> Inr None
      | Inr (Some (filePath, sources)) \<Rightarrow>
          (case v8toIstanbul ext filePath sources excludePath (fns obj) of
             Inl e \<Rightarrow> Inl e
           | Inr coverage \<Rightarrow> Inr (Some coverage)))"

text \<open>The filter of lines 72-86 on the script records.\<close>

definition keepScript :: "scriptCoverage \<Rightarrow> bool" where
  "keepScript obj =
     (if \<not> prefix ''file:'' (url obj) \<and>
         \<not> (prefix ''http:'' (url obj) \<or> prefix ''https:'' (url obj))
      then False
      else if sublist ''/node_modules/'' (url obj) \<or> sublist ''/__cypress/'' (url obj) \<or>
              sublist ''/__/assets/'' (url obj)
      then False
      else True)"

text \<open>Lines 89-98: every kept script is converted; a rejected conversion becomes \<open>null\<close>.\<close>

definition convertAll ::
  "'src collaborators \<Rightarrow> (string \<times> string) list \<Rightarrow> scriptCoverage list \<Rightarrow> coverageMap option list" where
  "convertAll ext roots scripts =
     map (\<lambda>obj. case convertToIstanbul ext obj roots of Inl err \<Rightarrow> None | Inr coverage \<Rightarrow> coverage)
       scripts"

text \<open>Lines 100-108: the non-null coverages are merged into a fresh map, in order.\<close>

definition mergeCoverages :: "coverageMap option list \<Rightarrow> coverageMap" where
  "mergeCoverages coverages =
     foldl (\<lambda>m coverage. case coverage of None \<Rightarrow> m | Some c \<Rightarrow> merge m c)
       createCoverageMap coverages"

definition convertProfileCoverageToIstanbul ::
  "'src collaborators \<Rightarrow> scriptCoverage list \<Rightarrow> string \<Rightarrow> (string \<times> string) list \<Rightarrow> error + coverageMap" where
  "convertProfileCoverageToIstanbul ext cov comment roots =
     (case ensureCacheDir ext of
        Some e \<Rightarrow> Inl e
      | None \<Rightarrow>
          (let filteredCoverage = filter keepScript cov;
               coverages = convertAll ext roots filteredCoverage;
               result = mergeCoverages coverages
           in case saveDebugFile ext (filteredCoverage, result) comment of
                Some e \<Rightarrow> Inl e
              | None \<Rightarrow> Inr result))"

section \<open>support.js: collecting the backend coverage\<close>

text \<open>A response body, as parsed JSON.\<close>

datatype json =
  JNull | JBool bool | JNum rat | JStr string | JArr "json list" | JObj "(string \<times> json) list"

record response =
  status :: nat
  body :: "json option"

text \<open>
  The \<open>coverage\<close> property of the body, when the body is an object that has one, and
  \<open>Cypress._.get(r, 'body.coverage', null)\<close>.
\<close>

definition coverageField :: "response \<Rightarrow> json option" where
  "coverageField r =
     (case body r of
        Some (JObj props) \<Rightarrow> map_of props ''coverage''
      | _ \<Rightarrow> None)"

definition getBodyCoverage :: "response \<Rightarrow> json" where
  "getBodyCoverage r = (case coverageField r of None \<Rightarrow> JNull | Some v \<Rightarrow> v)"

fun truthy :: "json \<Rightarrow> bool" where
  "truthy JNull = False"
| "truthy (JBool b) = b"
| "truthy (JNum n) = (n \<noteq> 0)"
| "truthy (JStr s) = (s \<noteq> [])"
| "truthy (JArr xs) = True"
| "truthy (JObj props) = True"

record hostConfig =
  hostUrl :: string
  projectRoot :: "string option"
  comment :: string

text \<open>
  How the promise of one host settles: \<open>resolve()\<close> was called, \<open>reject(new Error(msg))\<close>
  was called, or a Cypress command of the chain failed before either call.
\<close>

datatype settled = Resolved | Rejected string | CommandFailed

text \<open>
  The Cypress commands of the step, as parameters: \<open>cy.request\<close> (no response when the
  request itself fails; a status code alone never fails it) and \<open>sendCoverage\<close> (whether its
  chain runs to the end).
\<close>

record commands =
  request :: "string \<Rightarrow> response option"
  sendCoverage :: "json \<Rightarrow> string \<Rightarrow> string option \<Rightarrow> bool"

text \<open>Lines 204-242: the promise built for one host.\<close>

definition collectHost :: "commands \<Rightarrow> codeCoverageConfig \<Rightarrow> hostConfig \<Rightarrow> settled" where
  "collectHost cy codeCoverageConfig hostConfig =
     (case request cy (hostUrl hostConfig) of
        None \<Rightarrow> CommandFailed
      | Some r \<Rightarrow>
          (let coverage = getBodyCoverage r
           in if truthy coverage
              then (if sendCoverage cy coverage (comment hostConfig) (projectRoot hostConfig)
                    then Resolved else CommandFailed)
              else if expectBackendCoverageOnly codeCoverageConfig = Some True
              then Rejected (''Expected to collect backend code coverage from '' @ hostUrl hostConfig)
              else Resolved))"

text \<open>\<open>Cypress.Promise.mapSeries\<close>: one host after the other, up to the first that does not resolve.\<close>

fun mapSeries :: "('a \<Rightarrow> settled) \<Rightarrow> 'a list \<Rightarrow> settled" where
  "mapSeries step [] = Resolved"
| "mapSeries step (h # hs) =
     (case step h of Resolved \<Rightarrow> mapSeries step hs | other \<Rightarrow> other)"

text \<open>\<open>Cypress._.castArray(codeCoverageConfig.api ?? [])\<close>.\<close>

fun castArray :: "stringSetting \<Rightarrow> string list" where
  "castArray Unset = []"
| "castArray (One u) = [u]"
| "castArray (Many us) = us"

text \<open>The \<open>after\<close> hook \<open>collectBackendCoverage\<close> (lines 173-244).\<close>

definition collectBackendCoverage ::
  "commands \<Rightarrow> string \<Rightarrow> string option \<Rightarrow> codeCoverageConfig \<Rightarrow> hostConfig list \<Rightarrow> settled" where
  "collectBackendCoverage cy testingType specType codeCoverageConfig hostObjects =
     (let runningEndToEndTests = (testingType = ''e2e'');
          isIntegrationSpec =
            ((case specType of None \<Rightarrow> ''integration'' | Some t \<Rightarrow> t) = ''integration'')
      in if \<not> runningEndToEndTests \<or> \<not> isIntegrationSpec then Resolved
         else
           (let backendUrls = castArray (api codeCoverageConfig);
                finalHostConfigs =
                  map (\<lambda>u. \<lparr>hostUrl = u, projectRoot = None, comment = ''backend - '' @ u\<rparr>)
                    backendUrls @ hostObjects
            in mapSeries (collectHost cy codeCoverageConfig) finalHostConfigs))"

text \<open>
  Example data: a backend whose response body is \<open>{"coverage": null}\<close>, in a run that
  declares backend coverage mandatory.
\<close>

definition nullCoverageResponse :: response where
  "nullCoverageResponse = \<lparr>status = 200, body = Some (JObj [(''coverage'', JNull)])\<rparr>"

definition nullCoverageCommands :: commands where
  "nullCoverageCommands =
     \<lparr>request = (\<lambda>u. Some nullCoverageResponse), sendCoverage = (\<lambda>coverage c root. True)\<rparr>"

definition mandatoryConfig :: codeCoverageConfig where
  "mandatoryConfig =
     \<lparr>client = None, clientRoots = [], ssr = None, api = One ''http://localhost:3000/__coverage__'',
      expectBackendCoverageOnly = Some True, exclude = Unset\<rparr>"

definition backendHost :: hostConfig where
  "backendHost =
     \<lparr>hostUrl = ''http://localhost:3000/__coverage__'', projectRoot = None,
      comment = ''backend - http://localhost:3000/__coverage__''\<rparr>"

text \<open>
  Example data: collaborators that resolve \<open>http://localhost/b.js\<close> to \<open>null\<close>,
  \<open>http://localhost/vendor.js\<close> to a file under \<open>/app/node_modules/\<close>, and any other
  script to \<open>/app/src\<close> followed by its URL without the first sixteen characters; the
  converter yields the empty coverage of the resolved file unless the exclusion callback
  rejects its path; the file system never fails.
\<close>

definition exampleCollaborators :: "unit collaborators" where
  "exampleCollaborators =
     \<lparr>getSources = (\<lambda>u roots.
        if u = ''http://localhost/b.js'' then Inr None
        else if u = ''http://localhost/vendor.js''
        then Inr (Some (''/app/node_modules/vendor.js'', ()))
        else Inr (Some (''/app/src'' @ drop 16 u, ()))),
      v8toIstanbul = (\<lambda>filePath sources excluded functionCoverages.
        Inr (if excluded filePath then Map.empty else [filePath \<mapsto> emptyFile filePath])),
      ensureCacheDir = None,
      saveDebugFile = (\<lambda>payload name. None)\<rparr>"

definition script :: "string \<Rightarrow> scriptCoverage" where
  "script u = \<lparr>url = u, fns = []\<rparr>"

section \<open>Properties of the coverage filter\<close>

subsection \<open>The path tests of the infrastructure exclusion\<close>

lemma space_not_wordOrDash: "isSpace c \<Longrightarrow> \<not> isWordOrDash c"
  by (auto simp: isSpace_def isWordOrDash_def isWord_def)

lemma fileNameOf_Some_iff:
  "fileNameOf p = Some base \<longleftrightarrow>
     base \<noteq> [] \<and> list_all (\<lambda>c. \<not> isSep c) base \<and>
     (\<exists>dir. p = dir @ base \<and> (dir = [] \<or> isSep (last dir)))"
proof
  assume h: "fileNameOf p = Some base"
  define run where "run = takeWhile (\<lambda>c. \<not> isSep c) (rev p)"
  from h have b: "base = rev run" and ne: "run \<noteq> []"
    by (auto simp: fileNameOf_def run_def Let_def split: if_splits)
  have all: "list_all (\<lambda>c. \<not> isSep c) base"
    unfolding b run_def by (auto simp: list_all_iff dest: set_takeWhileD)
  define rest where "rest = dropWhile (\<lambda>c. \<not> isSep c) (rev p)"
  have "rev p = run @ rest" by (simp add: run_def rest_def)
  then have p: "p = rev rest @ base" by (simp add: b rev_swap)
  have "rest = [] \<or> isSep (hd rest)"
    unfolding rest_def using hd_dropWhile[of "\<lambda>c. \<not> isSep c" "rev p"] by auto
  then have "rev rest = [] \<or> isSep (last (rev rest))"
    by (auto simp: last_rev)
  with p all ne b show "base \<noteq> [] \<and> list_all (\<lambda>c. \<not> isSep c) base \<and>
     (\<exists>dir. p = dir @ base \<and> (dir = [] \<or> isSep (last dir)))" by auto
next
  assume "base \<noteq> [] \<and> list_all (\<lambda>c. \<not> isSep c) base \<and>
     (\<exists>dir. p = dir @ base \<and> (dir = [] \<or> isSep (last dir)))"
  then obtain dir where ne: "base \<noteq> []" and all: "list_all (\<lambda>c. \<not> isSep c) base"
    and p: "p = dir @ base" and d: "dir = [] \<or> isSep (last dir)" by blast
  have "takeWhile (\<lambda>c. \<not> isSep c) (rev base @ rev dir) = rev base"
  proof (cases "dir = []")
    case True
    with all show ?thesis by (simp add: list_all_iff)
  next
    case False
    with d have "isSep (hd (rev dir))" by (simp add: hd_rev)
    moreover from False have "rev dir \<noteq> []" by simp
    ultimately obtain x xs where xs: "rev dir = x # xs" "isSep x" by (cases "rev dir") auto
    have "takeWhile (\<lambda>c. \<not> isSep c) (rev base @ x # xs) =
            rev base @ takeWhile (\<lambda>c. \<not> isSep c) (x # xs)"
      by (rule takeWhile_append2) (use all in \<open>auto simp: list_all_iff\<close>)
    with xs show ?thesis by simp
  qed
  with ne p show "fileNameOf p = Some base" by (simp add: fileNameOf_def Let_def)
qed

lemma externalAt_iff:
  "externalAt s \<longleftrightarrow>
     (\<exists>c1 w c2 after. s = ''/external'' @ [c1] @ w @ [c2, CHR 0x22] @ after \<and>
        isSpace c1 \<and> w \<noteq> [] \<and> list_all isWordOrDash w \<and> isSpace c2)"
proof
  assume h: "externalAt s"
  then obtain r0 where s: "s = ''/external'' @ r0" by (auto simp: externalAt_def prefix_def)
  from h s obtain c r where r0: "r0 = c # r" and c: "isSpace c"
    and w: "takeWhile isWordOrDash r \<noteq> []"
    and d: "(case dropWhile isWordOrDash r of c2 # c3 # _ \<Rightarrow> isSpace c2 \<and> c3 = CHR 0x22 | _ \<Rightarrow> False)"
    by (auto simp: externalAt_def split: list.splits)
  from d obtain c2 after where dw: "dropWhile isWordOrDash r = c2 # CHR 0x22 # after" and c2: "isSpace c2"
    by (auto split: list.splits)
  have "r = takeWhile isWordOrDash r @ c2 # CHR 0x22 # after"
    using takeWhile_dropWhile_id[of isWordOrDash r] dw by simp
  moreover have "list_all isWordOrDash (takeWhile isWordOrDash r)"
    by (auto simp: list_all_iff dest: set_takeWhileD)
  ultimately show "\<exists>c1 w c2 after. s = ''/external'' @ [c1] @ w @ [c2, CHR 0x22] @ after \<and>
        isSpace c1 \<and> w \<noteq> [] \<and> list_all isWordOrDash w \<and> isSpace c2"
    using s r0 c w c2 by (intro exI[of _ c] exI[of _ "takeWhile isWordOrDash r"] exI[of _ c2] exI[of _ after]) simp
next
  assume "\<exists>c1 w c2 after. s = ''/external'' @ [c1] @ w @ [c2, CHR 0x22] @ after \<and>
        isSpace c1 \<and> w \<noteq> [] \<and> list_all isWordOrDash w \<and> isSpace c2"
  then obtain c1 w c2 after where s: "s = ''/external'' @ [c1] @ w @ [c2, CHR 0x22] @ after"
    and c1: "isSpace c1" and w: "w \<noteq> []" "list_all isWordOrDash w" and c2: "isSpace c2" by blast
  from c2 have n: "\<not> isWordOrDash c2" by (rule space_not_wordOrDash)
  have "takeWhile isWordOrDash (w @ c2 # CHR 0x22 # after) =
          w @ takeWhile isWordOrDash (c2 # CHR 0x22 # after)"
    by (rule takeWhile_append2) (use w in \<open>auto simp: list_all_iff\<close>)
  with n have tw: "takeWhile isWordOrDash (w @ c2 # CHR 0x22 # after) = w" by simp
  have "dropWhile isWordOrDash (w @ c2 # CHR 0x22 # after) =
          dropWhile isWordOrDash (c2 # CHR 0x22 # after)"
    by (rule dropWhile_append2) (use w in \<open>auto simp: list_all_iff\<close>)
  with n have dw: "dropWhile isWordOrDash (w @ c2 # CHR 0x22 # after) = c2 # CHR 0x22 # after"
    by simp
  show "externalAt s"
    unfolding externalAt_def s using c1 c2 w tw dw by simp
qed

lemma matchExternal_iff:
  "matchExternal p \<longleftrightarrow> (\<exists>before s. p = before @ s \<and> externalAt s)"
proof (induction p)
  case Nil
  then show ?case by simp
next
  case (Cons c cs)
  show ?case
  proof
    assume "matchExternal (c # cs)"
    then consider "externalAt (c # cs)" | "matchExternal cs" by auto
    then show "\<exists>before s. c # cs = before @ s \<and> externalAt s"
    proof cases
      case 1
      then show ?thesis by (intro exI[of _ "[]"] exI[of _ "c # cs"]) simp
    next
      case 2
      with Cons.IH obtain before s where "cs = before @ s" "externalAt s" by blast
      then show ?thesis by (intro exI[of _ "c # before"] exI[of _ s]) simp
    qed
  next
    assume "\<exists>before s. c # cs = before @ s \<and> externalAt s"
    then obtain before s where e: "c # cs = before @ s" "externalAt s" by blast
    show "matchExternal (c # cs)"
    proof (cases before)
      case Nil
      with e have "externalAt (c # cs)" by simp
      then show ?thesis by simp
    next
      case (Cons b bs)
      with e have "cs = bs @ s" by simp
      with e Cons.IH show ?thesis by auto
    qed
  qed
qed

lemma isExternal_spec: "isExternal p \<longleftrightarrow> spec_infrastructure p"
proof -
  have a: "(case fileNameOf p of None \<Rightarrow> False | Some fileName \<Rightarrow> prefix ''webpack '' fileName) \<longleftrightarrow>
     (\<exists>dir base. p = dir @ base \<and> (dir = [] \<or> isSep (last dir)) \<and>
        list_all (\<lambda>c. \<not> isSep c) base \<and> prefix ''webpack '' base)" (is "?l \<longleftrightarrow> ?r")
  proof
    assume ?l
    then obtain base where "fileNameOf p = Some base" "prefix ''webpack '' base"
      by (auto split: option.splits)
    then show ?r by (auto simp: fileNameOf_Some_iff)
  next
    assume ?r
    then obtain dir base where h: "p = dir @ base" "dir = [] \<or> isSep (last dir)"
      "list_all (\<lambda>c. \<not> isSep c) base" "prefix ''webpack '' base" by blast
    then have "base \<noteq> []" by auto
    with h have "fileNameOf p = Some base" by (auto simp: fileNameOf_Some_iff)
    with h show ?l by simp
  qed
  have b: "sublist ''/webpack/'' p \<longleftrightarrow> (\<exists>before after. p = before @ ''/webpack/'' @ after)"
    by (simp add: sublist_def)
  have c: "matchExternal p \<longleftrightarrow> (\<exists>before c1 w c2 after.
        p = before @ ''/external'' @ [c1] @ w @ [c2, CHR 0x22] @ after \<and>
        isSpace c1 \<and> w \<noteq> [] \<and> list_all isWordOrDash w \<and> isSpace c2)"
    unfolding matchExternal_iff externalAt_iff by blast
  show ?thesis unfolding isExternal_def spec_infrastructure_def a b c ..
qed

subsection \<open>The passes as filters\<close>

lemma omitBy_Inr_iff:
  "omitBy p m = Inr r \<longleftrightarrow>
     (\<forall>(k, v) \<in> set m. \<not> isl (p v k)) \<and> r = filter (\<lambda>(k, v). p v k = Inr False) m"
proof (induction m arbitrary: r)
  case Nil
  then show ?case by auto
next
  case (Cons kv m)
  obtain k v where kv: "kv = (k, v)" by (cases kv)
  show ?case
  proof (cases "p v k")
    case (Inl e)
    then show ?thesis by (simp add: kv)
  next
    case (Inr b)
    show ?thesis
    proof (cases "omitBy p m")
      case (Inl e)
      with Cons.IH have "\<not> (\<forall>(k, v) \<in> set m. \<not> isl (p v k))" by auto
      with Inl Inr show ?thesis by (auto simp: kv)
    next
      case r': (Inr r')
      with Cons.IH[of r'] have "(\<forall>(k, v) \<in> set m. \<not> isl (p v k))"
        and "r' = filter (\<lambda>(k, v). p v k = Inr False) m" by auto
      with Inr r' show ?thesis by (auto simp: kv)
    qed
  qed
qed

lemma omitBy_total: "omitBy (\<lambda>v k. Inr (q v k)) m = Inr (filter (\<lambda>(k, v). \<not> q v k) m)"
  by (induction m) auto

lemma some_defined:
  "Undefined \<notin> set ps \<Longrightarrow> some (minimatch mm filename) ps = Inr (\<exists>p. Str p \<in> set ps \<and> mm filename p)"
proof (induction ps)
  case Nil
  then show ?case by simp
next
  case (Cons a ps)
  then show ?case by (cases a) auto
qed

lemma list_ex_endsWith:
  "Undefined \<notin> set ps \<Longrightarrow> list_ex (endsWith filename) ps = (\<exists>p. Str p \<in> set ps \<and> suffix p filename)"
proof (induction ps)
  case Nil
  then show ?case by simp
next
  case (Cons a ps)
  then show ?case by (cases a) auto
qed

lemma patterns_defined:
  assumes "truthySetting (config SpecPattern) \<or> config TestFiles \<noteq> Unset"
  shows "Undefined \<notin> set (getCypressExcludePatterns config env)"
proof -
  define t where "t = (if truthySetting (config SpecPattern) then config SpecPattern else config TestFiles)"
  from assms have t: "t \<noteq> Unset" by (auto simp: t_def)
  define ts where "ts = (case t of Many ps \<Rightarrow> map Str ps | One p \<Rightarrow> [Str p] | Unset \<Rightarrow> [Undefined])"
  from t have ts1: "Undefined \<notin> set ts" by (cases t) (auto simp: ts_def)
  define ex where "ex = (case codeCoverage env of None \<Rightarrow> Unset | Some cc \<Rightarrow> exclude cc)"
  have g: "getCypressExcludePatterns config env =
      (case ex of Many es \<Rightarrow> ts @ map Str es
         | One e \<Rightarrow> (if e \<noteq> [] then ts @ [Str e] else ts)
         | Unset \<Rightarrow> ts)"
    unfolding getCypressExcludePatterns_def ts_def t_def ex_def Let_def ..
  show ?thesis
    unfolding g using ts1 by (cases ex) auto
qed

lemma isTestFile_defined:
  assumes "Undefined \<notin> set ps"
  shows "isTestFile mm ps spec filePath =
     Inr (\<exists>p. Str p \<in> set ps \<and>
            (mm (replaceFirst (replaceFirst (relative spec) (absolute spec)) filePath) p \<or>
             suffix p (replaceFirst (replaceFirst (relative spec) (absolute spec)) filePath)))"
  using assms by (auto simp: isTestFile_def Let_def some_defined list_ex_endsWith)

lemma filterSpecs_defined:
  assumes "truthySetting (config SpecPattern) \<or> config TestFiles \<noteq> Unset"
  shows "\<exists>isTest. \<forall>m. filterSpecsFromCoverage mm config env spec m =
     Inr (filter (\<lambda>(filePath, fc). \<not> isTest filePath) m)"
proof -
  let ?ps = "getCypressExcludePatterns config env"
  let ?t = "\<lambda>filePath. \<exists>p. Str p \<in> set ?ps \<and>
      (mm (replaceFirst (replaceFirst (relative spec) (absolute spec)) filePath) p \<or>
       suffix p (replaceFirst (replaceFirst (relative spec) (absolute spec)) filePath))"
  have "isTestFile mm ?ps spec = (\<lambda>filePath. Inr (?t filePath))"
    using patterns_defined[OF assms, of env] by (intro ext) (rule isTestFile_defined)
  then have "\<forall>m. filterSpecsFromCoverage mm config env spec m =
      Inr (filter (\<lambda>(filePath, fc). \<not> ?t filePath) m)"
    unfolding filterSpecsFromCoverage_def Let_def by (simp add: omitBy_total)
  then show ?thesis by (rule exI[of _ ?t])
qed

lemma filterFiles_fixpoint:
  assumes "filterFilesFromCoverage mm config env spec m = Inr r"
  shows "filterFilesFromCoverage mm config env spec r = Inr r"
proof -
  let ?p = "\<lambda>(_::fileCoverage) filePath. isTestFile mm (getCypressExcludePatterns config env) spec filePath"
  from assms obtain r1 where r1: "omitBy ?p m = Inr r1" and r: "filterExternalFromCoverage r1 = Inr r"
    by (auto simp: filterFilesFromCoverage_def filterSpecsFromCoverage_def Let_def split: sum.splits)
  from r have r': "r = filter (\<lambda>(k, v). \<not> isExternal k) r1"
    by (simp add: filterExternalFromCoverage_def omitBy_total)
  from r1 have all: "\<forall>(k, v) \<in> set m. \<not> isl (?p v k)"
    and r1': "r1 = filter (\<lambda>(k, v). ?p v k = Inr False) m"
    by (simp_all add: omitBy_Inr_iff)
  have sub: "set r \<subseteq> set r1" "set r1 \<subseteq> set m" by (auto simp: r' r1')
  have keep: "\<forall>(k, v) \<in> set r. ?p v k = Inr False" using sub r1' r' by auto
  have "omitBy ?p r = Inr (filter (\<lambda>(k, v). ?p v k = Inr False) r)"
    using keep by (subst omitBy_Inr_iff) (auto)
  also have "filter (\<lambda>(k, v). ?p v k = Inr False) r = r"
    using keep by (intro filter_True) auto
  finally have a: "omitBy ?p r = Inr r" .
  have "filter (\<lambda>(k, v). \<not> isExternal k) r = r"
    unfolding r' by simp
  then have b: "filterExternalFromCoverage r = Inr r"
    by (simp add: filterExternalFromCoverage_def omitBy_total)
  show ?thesis
    by (simp add: filterFilesFromCoverage_def filterSpecsFromCoverage_def Let_def a b)
qed

lemma passes_commute_when_patterns_set:
  assumes "truthySetting (config SpecPattern) \<or> config TestFiles \<noteq> Unset"
  shows "filterFilesFromCoverage mm config env spec m = filterFilesFromCoverage_reversed mm config env spec m"
proof -
  from filterSpecs_defined[OF assms] obtain isTest where
    t: "\<And>m'. filterSpecsFromCoverage mm config env spec m' =
      Inr (filter (\<lambda>(filePath, fc). \<not> isTest filePath) m')"
    by blast
  have "filter (\<lambda>(k, v). \<not> isExternal k) (filter (\<lambda>(filePath, fc). \<not> isTest filePath) m) =
      filter (\<lambda>(filePath, fc). \<not> isTest filePath) (filter (\<lambda>(k, v). \<not> isExternal k) m)"
    by (induction m) auto
  then show ?thesis
    unfolding filterFilesFromCoverage_def filterFilesFromCoverage_reversed_def
    by (simp add: t filterExternalFromCoverage_def omitBy_total)
qed

lemmas filter_eval =
  filterFilesFromCoverage_def filterSpecsFromCoverage_def
  isTestFile_def Let_def getCypressExcludePatterns_def filterExternalFromCoverage_def
  filterExternalFromCoverage_path_def isExternal_def sublist_code fileNameOf_def isSep_def
  externalAt_def isSpace_def isWordOrDash_def isWord_def suffix_to_prefix

subsection \<open>Idempotence\<close>

text \<open>
  C3.  The coverage filter is idempotent: for every coverage map and every fixed
  configuration, filtering the filtered map gives the filtered map again.  Where the first
  application throws, so does the nested one, with the same exception.
\<close>

theorem filter_idempotent:
  "(case filterFilesFromCoverage mm config env spec m of
      Inl e \<Rightarrow> Inl e
    | Inr filtered \<Rightarrow> filterFilesFromCoverage mm config env spec filtered) =
   filterFilesFromCoverage mm config env spec m"
  by (cases "filterFilesFromCoverage mm config env spec m") (simp_all add: filterFiles_fixpoint)

theorem filter_idempotent_witness:
  "filterFilesFromCoverage exampleMatch exampleConfig exampleEnv exampleSpec
     [(''/app/src/foo.js'', emptyFile ''/app/src/foo.js'')] =
   Inr [(''/app/src/foo.js'', emptyFile ''/app/src/foo.js'')]"
proof -
  let ?m = "[(''/app/src/foo.js'', emptyFile ''/app/src/foo.js''),
      (''/app/test/foo.spec.js'', emptyFile ''/app/test/foo.spec.js''),
      (''/app/webpack/runtime.js'', emptyFile ''/app/webpack/runtime.js'')]"
  have "filterFilesFromCoverage exampleMatch exampleConfig exampleEnv exampleSpec ?m =
      Inr [(''/app/src/foo.js'', emptyFile ''/app/src/foo.js'')]"
    by (simp add: filter_eval exampleConfig_def exampleEnv_def exampleSpec_def exampleMatch_def)
  with filter_idempotent[of exampleMatch exampleConfig exampleEnv exampleSpec ?m]
  show ?thesis by (simp only: sum.case)
qed

subsection \<open>The two passes in either order\<close>

text \<open>
  C4.  The claim is that self-test exclusion followed by infrastructure exclusion gives the
  same map as the reverse order, for every map and configuration.  With no spec pattern
  configured and a map that holds only a bundler file, the order of the code throws a
  TypeError while the reverse order returns the empty map.
\<close>

theorem passes_differ_without_spec_pattern:
  "filterFilesFromCoverage mm noPatterns noCodeCoverage spec
      [(''/app/webpack/runtime.js'', emptyFile ''/app/webpack/runtime.js'')] = Inl TypeError \<and>
   filterFilesFromCoverage_reversed mm noPatterns noCodeCoverage spec
      [(''/app/webpack/runtime.js'', emptyFile ''/app/webpack/runtime.js'')] = Inr []"
  by (simp add: filter_eval filterFilesFromCoverage_reversed_def noPatterns_def noCodeCoverage_def)

subsection \<open>Self-test exclusion\<close>

text \<open>
  C5.  The claim is that self-test exclusion removes exactly the files whose relative path
  matches one of the patterns as a glob or ends with one of them, the patterns being the
  spec pattern(s) together with the exclude list, and that with exclude pattern
  \<open>**/*.spec.js\<close> and the keys \<open>/app/src/foo.js\<close> and \<open>/app/test/foo.spec.js\<close> the filter
  returns the map that holds only \<open>/app/src/foo.js\<close>.  With that exclude pattern alone, no
  spec pattern being configured, \<open>getCypressExcludePatterns\<close> returns \<open>undefined\<close> followed
  by the exclude pattern, and on this map the filter throws a TypeError.
\<close>

theorem exclude_only_scenario_throws:
  "getCypressExcludePatterns noPatterns exampleEnv = [Undefined, Str ''**/*.spec.js''] \<and>
   filterFilesFromCoverage mm noPatterns exampleEnv spec
      [(''/app/src/foo.js'', a), (''/app/test/foo.spec.js'', b)] = Inl TypeError"
  by (simp add: filter_eval noPatterns_def exampleEnv_def)

text \<open>
  With a spec pattern configured as well, the filter returns what the scenario says, given
  the verdicts of the glob matcher on the two relative paths.
\<close>

lemma scenario_with_spec_pattern:
  assumes "mm ''test/foo.spec.js'' ''**/*.spec.js''" and "\<not> mm ''src/foo.js'' ''**/*.spec.js''"
    and "\<not> mm ''src/foo.js'' ''cypress/e2e/**/*.cy.js''"
  shows "filterFilesFromCoverage mm exampleConfig exampleEnv exampleSpec
        [(''/app/src/foo.js'', a), (''/app/test/foo.spec.js'', b)] =
      Inr [(''/app/src/foo.js'', a)]"
  using assms by (simp add: filter_eval exampleConfig_def exampleEnv_def exampleSpec_def)

text \<open>
  The path is made relative by \<open>filePath.replace(workingDir, '')\<close>: a path that starts with
  the working directory loses it, and a path that holds the working directory further on
  loses its first occurrence there.
\<close>

lemma workingDir_removed_at_start: "replaceFirst workingDir (workingDir @ rest) = rest"
proof (cases "workingDir @ rest")
  case Nil
  then show ?thesis by simp
next
  case (Cons c cs)
  have "prefix workingDir (workingDir @ rest)" by simp
  then have "replaceFirst workingDir (c # cs) = drop (length workingDir) (c # cs)"
    unfolding Cons by simp
  then show ?thesis unfolding Cons[symmetric] by simp
qed

lemma workingDir_removed_inside:
  "replaceFirst ''/app/'' ''/srv/app/test/foo.spec.js'' = ''/srvtest/foo.spec.js''"
  by simp

subsection \<open>Totality\<close>

text \<open>
  C7.  The claim is that the coverage filter never fails, also when no spec pattern and no
  exclude pattern is set.  In that configuration, and also when the spec pattern is the empty
  string, \<open>getCypressExcludePatterns\<close> returns an array that holds \<open>undefined\<close>, and on
  a map with one file the filter throws a TypeError.
\<close>

theorem filter_throws_without_spec_pattern:
  "getCypressExcludePatterns noPatterns noCodeCoverage = [Undefined] \<and>
   getCypressExcludePatterns (noPatterns(SpecPattern := One [])) noCodeCoverage = [Undefined] \<and>
   filterFilesFromCoverage mm noPatterns noCodeCoverage spec
      [(''/app/src/foo.js'', emptyFile ''/app/src/foo.js'')] = Inl TypeError"
  by (simp add: filter_eval noPatterns_def noCodeCoverage_def)

text \<open>With a spec pattern configured the filter returns.\<close>

lemma filter_returns_when_patterns_set:
  assumes "truthySetting (config SpecPattern) \<or> config TestFiles \<noteq> Unset"
  shows "\<exists>filtered. filterFilesFromCoverage mm config env spec m = Inr filtered"
proof -
  from filterSpecs_defined[OF assms] obtain isTest where
    "filterSpecsFromCoverage mm config env spec m =
      Inr (filter (\<lambda>(filePath, fc). \<not> isTest filePath) m)"
    by blast
  then show ?thesis
    by (simp add: filterFilesFromCoverage_def filterExternalFromCoverage_def omitBy_total)
qed

subsection \<open>Infrastructure exclusion\<close>

text \<open>
  C8.  Infrastructure exclusion removes exactly the entries whose basename starts with the
  marker \<open>webpack \<close>, or whose path contains the segment \<open>/webpack/\<close>, or whose path matches
  the external-module naming convention, and keeps every other entry unchanged.  The first
  copy of the function reads the path from the key, the second from the \<open>path\<close> property.
\<close>

theorem filterExternal_exact:
  "filterExternalFromCoverage m =
     Inr (filter (\<lambda>(filePath, fc). \<not> spec_infrastructure filePath) m) \<and>
   filterExternalFromCoverage_path m =
     Inr (filter (\<lambda>(filePath, fc). \<not> spec_infrastructure (path fc)) m)"
  unfolding filterExternalFromCoverage_def filterExternalFromCoverage_path_def omitBy_total
    isExternal_spec
  by (simp add: case_prod_unfold)

theorem filterExternal_exact_witness:
  "filter (\<lambda>(filePath, fc). \<not> spec_infrastructure filePath)
     [(''/app/src/webpack x.js'', emptyFile ''a''), (''/app/webpack/y.js'', emptyFile ''b''),
      (''/app/external foo-bar \"x\"'', emptyFile ''c''), (''/app/src/foo.js'', emptyFile ''d'')] =
   [(''/app/src/foo.js'', emptyFile ''d'')]"
proof -
  let ?m = "[(''/app/src/webpack x.js'', emptyFile ''a''), (''/app/webpack/y.js'', emptyFile ''b''),
      (''/app/external foo-bar \"x\"'', emptyFile ''c''), (''/app/src/foo.js'', emptyFile ''d'')]"
  have "filterExternalFromCoverage ?m = Inr [(''/app/src/foo.js'', emptyFile ''d'')]"
    by (simp add: filter_eval)
  moreover have "filterExternalFromCoverage ?m =
      Inr (filter (\<lambda>(filePath, fc). \<not> spec_infrastructure filePath) ?m)"
    using filterExternal_exact[of ?m] by (rule conjunct1)
  ultimately show ?thesis by (simp only: sum.inject)
qed

section \<open>Properties of the conversion\<close>

lemma mergeCoverages_map_filter:
  "foldl (\<lambda>m coverage. case coverage of None \<Rightarrow> m | Some c \<Rightarrow> merge m c) acc cs =
   foldl merge acc (List.map_filter id cs)"
proof (induction cs arbitrary: acc)
  case Nil
  then show ?case by (simp add: List.map_filter_simps)
next
  case (Cons c cs)
  then show ?case by (cases c) (simp_all add: List.map_filter_simps)
qed

lemma map_filter_id_map: "List.map_filter id (map f xs) = List.map_filter f xs"
  by (induction xs) (simp_all add: List.map_filter_simps split: option.splits)

lemma mergeCoverages_skip:
  "mergeCoverages (xs @ None # ys) = mergeCoverages (xs @ ys)"
  by (simp add: mergeCoverages_def)

lemma convertAll_append:
  "convertAll ext roots (xs @ ys) = convertAll ext roots xs @ convertAll ext roots ys"
  by (simp add: convertAll_def)

lemma convertAll_failed:
  assumes "convertToIstanbul ext bad roots = Inr None \<or> isl (convertToIstanbul ext bad roots)"
  shows "convertAll ext roots [bad] = [None]"
  using assms by (cases "convertToIstanbul ext bad roots") (auto simp: convertAll_def)

lemma filter_keep_filter:
  assumes "\<And>obj. keepScript obj \<Longrightarrow> P obj"
  shows "filter keepScript (filter P cov) = filter keepScript cov"
  using assms by (induction cov) auto

lemma convertProfile_filter:
  assumes "\<And>obj. keepScript obj \<Longrightarrow> P obj"
  shows "convertProfileCoverageToIstanbul ext (filter P cov) label roots =
         convertProfileCoverageToIstanbul ext cov label roots"
  by (simp only: convertProfileCoverageToIstanbul_def filter_keep_filter[of P, OF assms])

lemma dom_merge: "dom (merge a b) = dom a \<union> dom b"
  by (auto simp: merge_def split: option.splits)

lemma dom_mergeCoverages:
  "dom (mergeCoverages cs) = (\<Union>c \<in> set cs. case c of None \<Rightarrow> {} | Some m \<Rightarrow> dom m)"
proof -
  have "dom (foldl (\<lambda>m coverage. case coverage of None \<Rightarrow> m | Some c \<Rightarrow> merge m c) acc cs) =
      dom acc \<union> (\<Union>c \<in> set cs. case c of None \<Rightarrow> {} | Some m \<Rightarrow> dom m)" for acc
  proof (induction cs arbitrary: acc)
    case Nil
    then show ?case by simp
  next
    case (Cons c cs)
    then show ?case by (cases c) (auto simp: dom_merge)
  qed
  then show ?thesis by (simp add: mergeCoverages_def createCoverageMap_def)
qed

lemma convertAll_keys:
  assumes contract: "\<And>filePath sources fs c. v8toIstanbul ext filePath sources excludePath fs = Inr c \<Longrightarrow>
      \<forall>k. excludePath k \<longrightarrow> c k = None"
    and "Some c \<in> set (convertAll ext roots scripts)" "excludePath k"
  shows "c k = None"
proof -
  from assms(2) obtain obj where "convertToIstanbul ext obj roots = Inr (Some c)"
    by (auto simp: convertAll_def split: sum.splits)
  then obtain filePath sources where "v8toIstanbul ext filePath sources excludePath (fns obj) = Inr c"
    by (auto simp: convertToIstanbul_def split: sum.splits option.splits)
  from contract[OF this] assms(3) show ?thesis by simp
qed

lemmas conv_eval = convertProfileCoverageToIstanbul_def convertAll_def convertToIstanbul_def
  keepScript_def excludePath_def mergeCoverages_def Let_def sublist_code

lemma conv_a: "convertToIstanbul exampleCollaborators (script ''http://localhost/a.js'') [] =
    Inr (Some [''/app/src/a.js'' \<mapsto> emptyFile ''/app/src/a.js''])"
  by (simp add: conv_eval exampleCollaborators_def script_def)

lemma conv_b: "convertToIstanbul exampleCollaborators (script ''http://localhost/b.js'') [] = Inr None"
  by (simp add: conv_eval exampleCollaborators_def script_def)

lemma conv_c: "convertToIstanbul exampleCollaborators (script ''http://localhost/c.js'') [] =
    Inr (Some [''/app/src/c.js'' \<mapsto> emptyFile ''/app/src/c.js''])"
  by (simp add: conv_eval exampleCollaborators_def script_def)

lemma keep_abc: "keepScript (script ''http://localhost/a.js'') \<and> keepScript (script ''http://localhost/b.js'') \<and>
   keepScript (script ''http://localhost/c.js'')"
  by (simp add: keepScript_def script_def sublist_code)

text \<open>
  C6.  One script's conversion failure never aborts the batch.  Provided the cache
  directory and the debug file can be written, a script whose conversion resolves to
  \<open>null\<close> or throws can be removed from the batch without changing the result; the
  function returns the merge of the coverages of the scripts that convert; and in a batch
  of three kept scripts whose second script fails, the result is the merge of the first
  and the third coverage.
\<close>

theorem failed_script_is_skipped:
  assumes "ensureCacheDir ext = None" and "\<And>payload. saveDebugFile ext payload label = None"
  shows "(convertToIstanbul ext bad roots = Inr None \<or> isl (convertToIstanbul ext bad roots) \<longrightarrow>
           convertProfileCoverageToIstanbul ext (xs @ bad # ys) label roots =
           convertProfileCoverageToIstanbul ext (xs @ ys) label roots) \<and>
         convertProfileCoverageToIstanbul ext cov label roots =
           Inr (foldl merge createCoverageMap
                  (List.map_filter (\<lambda>obj. case convertToIstanbul ext obj roots of
                       Inl err \<Rightarrow> None | Inr coverage \<Rightarrow> coverage) (filter keepScript cov))) \<and>
         (keepScript s1 \<and> keepScript s2 \<and> keepScript s3 \<and>
          convertToIstanbul ext s1 roots = Inr (Some c1) \<and>
          (convertToIstanbul ext s2 roots = Inr None \<or> isl (convertToIstanbul ext s2 roots)) \<and>
          convertToIstanbul ext s3 roots = Inr (Some c3) \<longrightarrow>
           convertProfileCoverageToIstanbul ext [s1, s2, s3] label roots =
             Inr (merge (merge createCoverageMap c1) c3))"
proof (intro conjI impI)
  have run: "convertProfileCoverageToIstanbul ext cov' label roots =
      Inr (mergeCoverages (convertAll ext roots (filter keepScript cov')))" for cov'
    using assms by (simp add: convertProfileCoverageToIstanbul_def Let_def)
  {
    assume bad: "convertToIstanbul ext bad roots = Inr None \<or> isl (convertToIstanbul ext bad roots)"
    have "mergeCoverages (convertAll ext roots (filter keepScript (xs @ bad # ys))) =
        mergeCoverages (convertAll ext roots (filter keepScript (xs @ ys)))"
    proof (cases "keepScript bad")
      case True
      have "convertAll ext roots (filter keepScript (xs @ bad # ys)) =
          convertAll ext roots (filter keepScript xs) @ None # convertAll ext roots (filter keepScript ys)"
        using True convertAll_failed[OF bad] by (simp add: convertAll_def)
      then show ?thesis by (simp add: mergeCoverages_skip convertAll_append)
    next
      case False
      then show ?thesis by simp
    qed
    then show "convertProfileCoverageToIstanbul ext (xs @ bad # ys) label roots =
           convertProfileCoverageToIstanbul ext (xs @ ys) label roots"
      by (simp add: run)
  }
  show "convertProfileCoverageToIstanbul ext cov label roots =
           Inr (foldl merge createCoverageMap
                  (List.map_filter (\<lambda>obj. case convertToIstanbul ext obj roots of
                       Inl err \<Rightarrow> None | Inr coverage \<Rightarrow> coverage) (filter keepScript cov)))"
    unfolding run mergeCoverages_def mergeCoverages_map_filter convertAll_def map_filter_id_map ..
  {
    assume h: "keepScript s1 \<and> keepScript s2 \<and> keepScript s3 \<and>
          convertToIstanbul ext s1 roots = Inr (Some c1) \<and>
          (convertToIstanbul ext s2 roots = Inr None \<or> isl (convertToIstanbul ext s2 roots)) \<and>
          convertToIstanbul ext s3 roots = Inr (Some c3)"
    then have "convertAll ext roots [s2] = [None]" by (intro convertAll_failed) simp
    then have "convertAll ext roots (filter keepScript [s1, s2, s3]) = [Some c1, None, Some c3]"
      using h by (simp add: convertAll_def)
    then show "convertProfileCoverageToIstanbul ext [s1, s2, s3] label roots =
             Inr (merge (merge createCoverageMap c1) c3)"
      by (simp add: run mergeCoverages_def)
  }
qed

theorem failed_script_is_skipped_witness:
  "convertProfileCoverageToIstanbul exampleCollaborators
     [script ''http://localhost/a.js'', script ''http://localhost/b.js'', script ''http://localhost/c.js'']
     ''client'' [] =
   Inr (merge (merge createCoverageMap [''/app/src/a.js'' \<mapsto> emptyFile ''/app/src/a.js''])
          [''/app/src/c.js'' \<mapsto> emptyFile ''/app/src/c.js'']) \<and>
   convertProfileCoverageToIstanbul exampleCollaborators
     [script ''http://localhost/a.js'', script ''http://localhost/b.js'', script ''http://localhost/c.js'']
     ''client'' [] =
   convertProfileCoverageToIstanbul exampleCollaborators
     [script ''http://localhost/a.js'', script ''http://localhost/c.js''] ''client'' []"
proof -
  have io: "ensureCacheDir exampleCollaborators = None"
    "\<And>payload. saveDebugFile exampleCollaborators payload ''client'' = None"
    by (simp_all add: exampleCollaborators_def)
  note t = failed_script_is_skipped[OF io, of "script ''http://localhost/b.js''" "[]"
      "[script ''http://localhost/a.js'']" "[script ''http://localhost/c.js'']" "[]"
      "script ''http://localhost/a.js''" "script ''http://localhost/b.js''"
      "script ''http://localhost/c.js''" "[''/app/src/a.js'' \<mapsto> emptyFile ''/app/src/a.js'']"
      "[''/app/src/c.js'' \<mapsto> emptyFile ''/app/src/c.js'']"]
  from t conv_b have 1: "convertProfileCoverageToIstanbul exampleCollaborators
     ([script ''http://localhost/a.js''] @ script ''http://localhost/b.js'' # [script ''http://localhost/c.js''])
     ''client'' [] =
   convertProfileCoverageToIstanbul exampleCollaborators
     ([script ''http://localhost/a.js''] @ [script ''http://localhost/c.js'']) ''client'' []"
    by blast
  from t conv_a conv_b conv_c keep_abc have 2: "convertProfileCoverageToIstanbul exampleCollaborators
     [script ''http://localhost/a.js'', script ''http://localhost/b.js'', script ''http://localhost/c.js'']
     ''client'' [] =
   Inr (merge (merge createCoverageMap [''/app/src/a.js'' \<mapsto> emptyFile ''/app/src/a.js''])
          [''/app/src/c.js'' \<mapsto> emptyFile ''/app/src/c.js''])"
    by blast
  from 1 2 show ?thesis by simp
qed

text \<open>
  C9.  Path-based exclusion at the conversion stage.  A script record whose URL contains
  \<open>/node_modules/\<close>, \<open>/__cypress/\<close> or \<open>/__/assets/\<close> contributes nothing: the result
  is the result of the batch without these records.  The resolved source paths are tested by
  the same three markers in the callback handed to the converter; when the converter emits
  no entry for a path the callback rejects, no such path is a key of the converted map.
\<close>

theorem excluded_paths_contribute_nothing:
  "convertProfileCoverageToIstanbul ext cov label roots =
     convertProfileCoverageToIstanbul ext (filter (\<lambda>obj. \<not> excludePath (url obj)) cov) label roots \<and>
   ((\<forall>filePath sources fs c. v8toIstanbul ext filePath sources excludePath fs = Inr c \<longrightarrow>
        (\<forall>k. excludePath k \<longrightarrow> c k = None)) \<longrightarrow>
    (\<forall>result k. convertProfileCoverageToIstanbul ext cov label roots = Inr result \<longrightarrow>
        excludePath k \<longrightarrow> result k = None))"
proof (intro conjI impI allI)
  show "convertProfileCoverageToIstanbul ext cov label roots =
     convertProfileCoverageToIstanbul ext (filter (\<lambda>obj. \<not> excludePath (url obj)) cov) label roots"
    by (rule convertProfile_filter[symmetric]) (auto simp: keepScript_def excludePath_def split: if_splits)
next
  fix result k
  assume contract: "\<forall>filePath sources fs c. v8toIstanbul ext filePath sources excludePath fs = Inr c \<longrightarrow>
        (\<forall>k. excludePath k \<longrightarrow> c k = None)"
    and res: "convertProfileCoverageToIstanbul ext cov label roots = Inr result"
    and k: "excludePath k"
  from res have r: "result = mergeCoverages (convertAll ext roots (filter keepScript cov))"
    by (auto simp: convertProfileCoverageToIstanbul_def Let_def split: option.splits)
  have "k \<notin> dom result"
  proof
    assume "k \<in> dom result"
    then obtain c where c: "Some c \<in> set (convertAll ext roots (filter keepScript cov))" and "k \<in> dom c"
      unfolding r dom_mergeCoverages by (auto split: option.splits)
    moreover have "c k = None"
      using contract c k by (intro convertAll_keys[of ext _ roots "filter keepScript cov"]) auto
    ultimately show False by auto
  qed
  then show "result k = None" by auto
qed

theorem excluded_paths_contribute_nothing_witness:
  "convertProfileCoverageToIstanbul exampleCollaborators
     [script ''http://localhost/vendor.js'', script ''http://localhost/node_modules/x.js''] ''client'' [] =
   convertProfileCoverageToIstanbul exampleCollaborators [script ''http://localhost/vendor.js''] ''client'' [] \<and>
   (\<exists>result. convertProfileCoverageToIstanbul exampleCollaborators
     [script ''http://localhost/vendor.js'', script ''http://localhost/node_modules/x.js''] ''client'' [] = Inr result \<and>
     result ''/app/node_modules/vendor.js'' = None)"
proof -
  let ?cov = "[script ''http://localhost/vendor.js'', script ''http://localhost/node_modules/x.js'']"
  note t = excluded_paths_contribute_nothing[of exampleCollaborators ?cov "''client''" "[]"]
  have contract: "\<forall>filePath sources fs c.
      v8toIstanbul exampleCollaborators filePath sources excludePath fs = Inr c \<longrightarrow>
        (\<forall>k. excludePath k \<longrightarrow> c k = None)"
    by (auto simp: exampleCollaborators_def)
  have ex: "excludePath ''/app/node_modules/vendor.js''"
    by (simp add: excludePath_def sublist_code)
  have f: "filter (\<lambda>obj. \<not> excludePath (url obj)) ?cov = [script ''http://localhost/vendor.js'']"
    by (simp add: excludePath_def sublist_code script_def)
  from t have 1: "convertProfileCoverageToIstanbul exampleCollaborators ?cov ''client'' [] =
     convertProfileCoverageToIstanbul exampleCollaborators [script ''http://localhost/vendor.js''] ''client'' []"
    unfolding f by (rule conjunct1)
  obtain result where r: "convertProfileCoverageToIstanbul exampleCollaborators ?cov ''client'' [] = Inr result"
    by (simp add: convertProfileCoverageToIstanbul_def exampleCollaborators_def Let_def)
  from t contract r ex have "result ''/app/node_modules/vendor.js'' = None" by blast
  with 1 r show ?thesis by blast
qed

text \<open>
  C10.  A script record whose URL does not begin with \<open>file:\<close>, \<open>http:\<close> or \<open>https:\<close>
  is dropped before the conversion: the result is the result of the batch without these
  records.
\<close>

theorem other_schemes_dropped: "convertProfileCoverageToIstanbul ext cov label roots =
   convertProfileCoverageToIstanbul ext
     (filter (\<lambda>obj. prefix ''file:'' (url obj) \<or> prefix ''http:'' (url obj) \<or> prefix ''https:'' (url obj)) cov)
     label roots"
  by (rule convertProfile_filter[symmetric]) (auto simp: keepScript_def split: if_splits)

theorem other_schemes_dropped_witness:
  "convertProfileCoverageToIstanbul exampleCollaborators
     [script ''http://localhost/a.js'', script ''webpack://app/x.js'', script ''blob:1234''] ''client'' [] =
   convertProfileCoverageToIstanbul exampleCollaborators [script ''http://localhost/a.js''] ''client'' []"
  using other_schemes_dropped[of exampleCollaborators
      "[script ''http://localhost/a.js'', script ''webpack://app/x.js'', script ''blob:1234'']" "''client''" "[]"]
  by (simp add: script_def)

section \<open>Properties of the backend collection\<close>

text \<open>
  C2.  The claim is that the step rejects exactly when the body lacks a \<open>coverage\<close> field
  and \<open>expectBackendCoverageOnly\<close> is true.  The code tests the truthiness of
  \<open>body.coverage\<close>: for a host whose request returns a response, the promise is rejected,
  with the message that ends in the host's URL, exactly when \<open>body.coverage\<close> is missing
  or falsy and the flag is true; when it is missing or falsy and the flag is false or unset,
  the promise resolves.
\<close>

theorem collectHost_rejects_iff:
  assumes "request cy (hostUrl h) = Some r"
  shows "(collectHost cy cfg h = Rejected (''Expected to collect backend code coverage from '' @ hostUrl h) \<longleftrightarrow>
            (coverageField r = None \<or> (\<exists>v. coverageField r = Some v \<and> \<not> truthy v)) \<and>
            expectBackendCoverageOnly cfg = Some True) \<and>
         (\<forall>msg. collectHost cy cfg h = Rejected msg \<longrightarrow>
            msg = ''Expected to collect backend code coverage from '' @ hostUrl h) \<and>
         ((coverageField r = None \<or> (\<exists>v. coverageField r = Some v \<and> \<not> truthy v)) \<and>
            expectBackendCoverageOnly cfg \<noteq> Some True \<longrightarrow> collectHost cy cfg h = Resolved)"
proof -
  have f: "\<not> truthy (getBodyCoverage r) \<longleftrightarrow>
      (coverageField r = None \<or> (\<exists>v. coverageField r = Some v \<and> \<not> truthy v))"
    by (cases "coverageField r") (simp_all add: getBodyCoverage_def)
  show ?thesis
    unfolding f[symmetric] using assms by (auto simp: collectHost_def Let_def)
qed

theorem collectHost_rejects_witness:
  "request nullCoverageCommands (hostUrl backendHost) = Some nullCoverageResponse \<and>
   collectHost nullCoverageCommands mandatoryConfig backendHost =
     Rejected (''Expected to collect backend code coverage from '' @ hostUrl backendHost)"
proof -
  have r: "request nullCoverageCommands (hostUrl backendHost) = Some nullCoverageResponse"
    by (simp add: nullCoverageCommands_def)
  have c: "coverageField nullCoverageResponse = Some JNull"
    by (simp add: coverageField_def nullCoverageResponse_def)
  have e: "expectBackendCoverageOnly mandatoryConfig = Some True"
    by (simp add: mandatoryConfig_def)
  have "collectHost nullCoverageCommands mandatoryConfig backendHost =
        Rejected (''Expected to collect backend code coverage from '' @ hostUrl backendHost) \<longleftrightarrow>
      (coverageField nullCoverageResponse = None \<or>
        (\<exists>v. coverageField nullCoverageResponse = Some v \<and> \<not> truthy v)) \<and>
      expectBackendCoverageOnly mandatoryConfig = Some True"
    using collectHost_rejects_iff[OF r, of mandatoryConfig] by (rule conjunct1)
  with c e r show ?thesis by simp
qed

theorem collectHost_rejects_counterexample:
  "\<not> (collectHost nullCoverageCommands mandatoryConfig backendHost =
        Rejected ''Expected to collect backend code coverage from http://localhost:3000/__coverage__'' \<longleftrightarrow>
      coverageField nullCoverageResponse = None \<and>
      expectBackendCoverageOnly mandatoryConfig = Some True)"
  by (simp add: collectHost_def nullCoverageCommands_def mandatoryConfig_def backendHost_def
      nullCoverageResponse_def coverageField_def getBodyCoverage_def)

end
